theory Spec2Isabelle
  imports Complex_Main
begin

section \<open>JavaScript values\<close>

text \<open>
  The hook and its error classifier work on loosely typed values: the thrown
  \<^verbatim>\<open>error\<close> is \<^verbatim>\<open>unknown\<close> and its two properties are read with lodash's
  \<^verbatim>\<open>get\<close>. Property values are modelled as the primitive values of the language.
  A number is \<^verbatim>\<open>NaN\<close>, an infinity or a finite value, kept as the rational it
  denotes (every finite double is a rational; the two zeros are not told apart, and
  nothing below does: the only comparison is \<^verbatim>\<open>Array.prototype.includes\<close>,
  which uses SameValueZero). A string is a list of characters, each standing for
  one code unit below 256.
\<close>

datatype jsnum = NaN | PosInfinity | NegInfinity | Fin rat

datatype jsval = JUndefined | JNull | JBool bool | JNum jsnum | JStr string

text \<open>
  An object is the list of its properties, each a name with its value; the
  first entry of a name is the one that is read. A thrown value that is not an
  object (a primitive, \<^verbatim>\<open>null\<close>) has neither of the two properties read
  here and behaves as the object without properties.
\<close>

type_synonym js_object = "(string \<times> jsval) list"

text \<open>lodash \<^verbatim>\<open>get(object, path)\<close> for a one-segment path: a missing property reads \<^verbatim>\<open>undefined\<close>.\<close>

definition get :: "js_object \<Rightarrow> string \<Rightarrow> jsval" where
  "get object path = (case map_of object path of None \<Rightarrow> JUndefined | Some v \<Rightarrow> v)"

text \<open>
  \<^verbatim>\<open>Boolean(v)\<close> on an optional string: \<^verbatim>\<open>undefined\<close> and the empty string
  are falsy, every other string is truthy.
\<close>

definition Boolean :: "string option \<Rightarrow> bool" where
  "Boolean v = (case v of None \<Rightarrow> False | Some s \<Rightarrow> s \<noteq> [])"

subsection \<open>\<^verbatim>\<open>Number(value)\<close>\<close>

text \<open>
  ECMAScript's \<^verbatim>\<open>StringToNumber\<close>: the string, trimmed of white space, is
  a \<^verbatim>\<open>StrNumericLiteral\<close> or the result is \<^verbatim>\<open>NaN\<close>; the empty string is 0.
  The mathematical value of a literal is rounded to a double by
  \<^verbatim>\<open>RoundMVResult\<close>.
\<close>

text \<open>
  The Number value for a rational \<open>x\<close>: the double nearest to \<open>x\<close>, the one
  with the even significand when two are equally near, and an infinity from
  \<open>2 ^ 1024\<close> on. A double is a multiple \<open>m * 2 ^ (e - 52)\<close> with
  \<open>m < 2 ^ 53\<close> and \<open>- 1022 \<le> e \<le> 1023\<close>; for a positive \<open>x\<close> that is not
  below \<open>2 ^ - 1022\<close> the exponent \<open>e\<close> is the integer part of its binary
  logarithm.
\<close>

text \<open>The number of binary digits of a positive integer.\<close>

function bit_length :: "int \<Rightarrow> int" where
  "bit_length a = (if a \<le> 0 then 0 else 1 + bit_length (a div 2))"
  by pat_completeness auto
termination
  by (relation "measure nat") auto

definition pow2 :: "int \<Rightarrow> rat" where
  "pow2 k = (if 0 \<le> k then 2 ^ nat k else 1 / 2 ^ nat (- k))"

text \<open>The integer part of the binary logarithm of a positive rational.\<close>

definition floor_log2 :: "rat \<Rightarrow> int" where
  "floor_log2 x =
     (case quotient_of x of
        (a, b) \<Rightarrow>
          let d = bit_length a - bit_length b
          in if pow2 d \<le> x then d else d - 1)"

definition round_half_even :: "rat \<Rightarrow> int" where
  "round_half_even x =
     (let f = \<lfloor>x\<rfloor>; r = x - of_int f
      in if r < 1 / 2 then f
         else if 1 / 2 < r then f + 1
         else if even f then f else f + 1)"

definition Number_value :: "rat \<Rightarrow> jsnum" where
  "Number_value x =
     (if x = 0 then Fin 0
      else let a = \<bar>x\<bar>;
               e = max (floor_log2 a) (- 1022);
               ulp = pow2 (e - 52);
               v = of_int (round_half_even (a / ulp)) * ulp
           in if pow2 1024 \<le> v then (if 0 < x then PosInfinity else NegInfinity)
              else Fin (if 0 < x then v else - v))"

text \<open>
  \<^verbatim>\<open>RoundMVResult(n)\<close> is the Number value for \<open>n\<close>. (The standard lets an
  implementation cut a literal after its twentieth significant digit before
  rounding; engines round the exact value, and so does the model.)
\<close>

definition RoundMVResult :: "rat \<Rightarrow> jsnum" where
  "RoundMVResult n = Number_value n"

definition StrWhiteSpaceChar :: "char \<Rightarrow> bool" where
  "StrWhiteSpaceChar c = (of_char c \<in> set [9, 10, 11, 12, 13, 32, 160 :: nat])"

definition trim :: "string \<Rightarrow> string" where
  "trim s = rev (dropWhile StrWhiteSpaceChar (rev (dropWhile StrWhiteSpaceChar s)))"

definition DecimalDigit :: "char \<Rightarrow> bool" where
  "DecimalDigit c = (c \<in> set ''0123456789'')"

definition HexDigit :: "char \<Rightarrow> bool" where
  "HexDigit c = (c \<in> set ''0123456789abcdefABCDEF'')"

definition digit_value :: "char \<Rightarrow> int" where
  "digit_value c =
     (if DecimalDigit c then of_char c - 48
      else if c \<in> set ''abcdef'' then of_char c - 87
      else of_char c - 55)"

definition MV :: "int \<Rightarrow> string \<Rightarrow> int" where
  "MV base ds = foldl (\<lambda>acc c. base * acc + digit_value c) 0 ds"

definition NonDecimalIntegerLiteral :: "string \<Rightarrow> int option" where
  "NonDecimalIntegerLiteral s =
     (case s of
        z # p # ds \<Rightarrow>
          if z = CHR ''0'' \<and> ds \<noteq> [] then
            if p \<in> set ''xX'' \<and> list_all HexDigit ds then Some (MV 16 ds)
            else if p \<in> set ''oO'' \<and> list_all (\<lambda>c. c \<in> set ''01234567'') ds then Some (MV 8 ds)
            else if p \<in> set ''bB'' \<and> list_all (\<lambda>c. c \<in> set ''01'') ds then Some (MV 2 ds)
            else None
          else None
      | _ \<Rightarrow> None)"

definition DecimalDigits :: "string \<Rightarrow> int option" where
  "DecimalDigits ds =
     (if ds \<noteq> [] \<and> list_all DecimalDigit ds then Some (MV 10 ds) else None)"

text \<open>The exponent a (possibly empty) \<^verbatim>\<open>ExponentPart\<close> denotes.\<close>

definition ExponentPart :: "string \<Rightarrow> int option" where
  "ExponentPart s =
     (case s of
        [] \<Rightarrow> Some 0
      | e # r \<Rightarrow>
          if e \<in> set ''eE'' then
            (case r of
               [] \<Rightarrow> None
             | sg # ds \<Rightarrow>
                 if sg = CHR ''+'' then DecimalDigits ds
                 else if sg = CHR ''-'' then map_option uminus (DecimalDigits ds)
                 else DecimalDigits r)
          else None)"

definition StrUnsignedDecimalLiteral :: "string \<Rightarrow> rat option" where
  "StrUnsignedDecimalLiteral s =
     (let ip = takeWhile DecimalDigit s;
          r1 = dropWhile DecimalDigit s;
          (fp, r2) = (case r1 of
                        [] \<Rightarrow> ([], [])
                      | c # r \<Rightarrow> if c = CHR ''.''
                                 then (takeWhile DecimalDigit r, dropWhile DecimalDigit r)
                                 else ([], r1))
      in if ip = [] \<and> fp = [] then None
         else (case ExponentPart r2 of
                 None \<Rightarrow> None
               | Some ex \<Rightarrow>
                   Some ((of_int (MV 10 ip) + of_int (MV 10 fp) / 10 ^ length fp)
                         * (if 0 \<le> ex then 10 ^ nat ex else 1 / 10 ^ nat (- ex)))))"

definition unsigned_value :: "string \<Rightarrow> jsnum" where
  "unsigned_value u =
     (if u = ''Infinity'' then PosInfinity
      else case StrUnsignedDecimalLiteral u of None \<Rightarrow> NaN | Some q \<Rightarrow> RoundMVResult q)"

fun negate :: "jsnum \<Rightarrow> jsnum" where
  "negate NaN = NaN"
| "negate PosInfinity = NegInfinity"
| "negate NegInfinity = PosInfinity"
| "negate (Fin q) = Fin (- q)"

definition StrNumericLiteral :: "string \<Rightarrow> jsnum" where
  "StrNumericLiteral s =
     (case NonDecimalIntegerLiteral s of
        Some n \<Rightarrow> RoundMVResult (of_int n)
      | None \<Rightarrow>
          (case s of
             [] \<Rightarrow> NaN
           | c # u \<Rightarrow>
               if c = CHR ''-'' then negate (unsigned_value u)
               else if c = CHR ''+'' then unsigned_value u
               else unsigned_value s))"

definition StringToNumber :: "string \<Rightarrow> jsnum" where
  "StringToNumber s =
     (let t = trim s in if t = [] then Fin 0 else StrNumericLiteral t)"

text \<open>\<^verbatim>\<open>Number(value)\<close> on a primitive value (\<^verbatim>\<open>ToNumber\<close>).\<close>

fun Number :: "jsval \<Rightarrow> jsnum" where
  "Number JUndefined = NaN"
| "Number JNull = Fin 0"
| "Number (JBool b) = Fin (if b then 1 else 0)"
| "Number (JNum n) = n"
| "Number (JStr s) = StringToNumber s"

section \<open>What the module imports\<close>

text \<open>
  The module imports three helpers whose code is outside the files at hand:
  \<^verbatim>\<open>IS_DEV\<close> (shared/utils/dev), \<^verbatim>\<open>isNumeric\<close> (shared/utils/number)
  and \<^verbatim>\<open>isEqualAddress\<close> (services/addresses). They are parameters of the
  model.
\<close>

record env =
  IS_DEV :: bool
  isNumeric :: "jsval \<Rightarrow> bool"
  isEqualAddress :: "string \<Rightarrow> string \<Rightarrow> bool"

section \<open>The error classifier\<close>

text \<open>
  \<^verbatim>\<open>const isNetworkError = (errorCode) => {
    if (!isNumeric(errorCode)) { return false }
    const code = Number(errorCode)
    return [429, 502].includes(code)
  }\<close>
\<close>

definition isNetworkError :: "env \<Rightarrow> jsval \<Rightarrow> bool" where
  "isNetworkError env errorCode =
     (if \<not> isNumeric env errorCode then False
      else let code = Number errorCode
           in code \<in> set [Fin 429, Fin 502])"

text \<open>
  \<^verbatim>\<open>message.match(/(0x[0-9a-f]+)/gi)\<close> on a string: with the global flag the
  result is the list of all matches, found from left to right, each search
  resuming where the previous match ended, or \<^verbatim>\<open>null\<close> when there is none.
  A match starts at the leftmost position holding \<^verbatim>\<open>0\<close>, then \<^verbatim>\<open>x\<close> or
  \<^verbatim>\<open>X\<close> (the flag \<^verbatim>\<open>i\<close>), then at least one hexadecimal digit of either
  case, and takes all the digits that follow (the quantifier is greedy).
\<close>

function matches :: "string \<Rightarrow> string list" where
  "matches [] = []"
| "matches [c] = []"
| "matches (c # x # ds) =
     (if c = CHR ''0'' \<and> x \<in> set ''xX'' \<and> takeWhile HexDigit ds \<noteq> []
      then (c # x # takeWhile HexDigit ds) # matches (dropWhile HexDigit ds)
      else matches (x # ds))"
  by pat_completeness auto
termination
  by (relation "measure length") (auto intro: le_imp_less_Suc le_SucI length_dropWhile_le)

definition match :: "string \<Rightarrow> string list option" where
  "match message = (case matches message of [] \<Rightarrow> None | m # ms \<Rightarrow> Some (m # ms))"

text \<open>\<^verbatim>\<open>contractAddressMatches?.[0] ?? undefined\<close>\<close>

definition first_match :: "string list option \<Rightarrow> string option" where
  "first_match contractAddressMatches =
     (case contractAddressMatches of
        None \<Rightarrow> None
      | Some ms \<Rightarrow> (case ms of [] \<Rightarrow> None | m # _ \<Rightarrow> Some m))"

record TokenBalanceErrorMessage =
  message :: string
  description :: jsval

text \<open>
  What a call throws. \<^verbatim>\<open>message.match\<close> on a value that is not a string
  (\<^verbatim>\<open>undefined\<close>, \<^verbatim>\<open>null\<close>, a boolean, a number) is a \<^verbatim>\<open>TypeError\<close>.
\<close>

datatype exn = TypeError | Thrown js_object

text \<open>
  One call of \<^verbatim>\<open>console.warn\<close>: the error code interpolated into
  \<^verbatim>\<open>TokenListItemMulticall - ignoring errorCode ${errorCode} with error:\<close>
  and the error passed after it.
\<close>

datatype console_warn = Warn jsval js_object

text \<open>
  \<^verbatim>\<open>errorToMessage(error, tokenAddress, multicallAddress?)\<close>: what it returns or
  throws, and what it wrote to the console.
\<close>

definition errorToMessage ::
  "env \<Rightarrow> js_object \<Rightarrow> string \<Rightarrow> string option
     \<Rightarrow> (exn + TokenBalanceErrorMessage) \<times> console_warn list" where
  "errorToMessage env error tokenAddress multicallAddress =
     (let errorCode = get error ''errorCode'';
          message = get error ''message''
      in if errorCode = JStr ''StarknetErrorCode.UNINITIALIZED_CONTRACT'' then
           (case message of
              JStr text \<Rightarrow>
                (let contractAddressMatches = match text;
                     contractAddress = first_match contractAddressMatches
                 in case contractAddress of
                      Some a \<Rightarrow>
                        if Boolean contractAddress then
                          if isEqualAddress env a tokenAddress then
                            (Inr \<lparr>message = ''Token not found'',
                                  description = JStr (''Token with address '' @ tokenAddress
                                    @ '' not deployed on this network'')\<rparr>, [])
                          else
                            (case multicallAddress of
                               Some mc \<Rightarrow>
                                 if Boolean multicallAddress \<and> isEqualAddress env a mc then
                                   (Inr \<lparr>message = ''No Multicall'',
                                         description = JStr (''Multicall contract with address ''
                                           @ mc @ '' not deployed on this network'')\<rparr>, [])
                                 else
                                   (Inr \<lparr>message = ''Missing contract'',
                                         description = JStr (''Contract with address '' @ a
                                           @ '' not deployed on this network'')\<rparr>, [])
                             | None \<Rightarrow>
                                 (Inr \<lparr>message = ''Missing contract'',
                                       description = JStr (''Contract with address '' @ a
                                         @ '' not deployed on this network'')\<rparr>, []))
                        else (Inr \<lparr>message = ''Missing contract'', description = message\<rparr>, [])
                    | None \<Rightarrow> (Inr \<lparr>message = ''Missing contract'', description = message\<rparr>, []))
            | _ \<Rightarrow> (Inl TypeError, []))
         else if isNetworkError env errorCode then
           (Inr \<lparr>message = ''Network error'', description = message\<rparr>, [])
         else
           (Inr \<lparr>message = ''Error'', description = message\<rparr>,
            if IS_DEV env then [Warn errorCode error] else []))"

section \<open>The hook\<close>

text \<open>\<^verbatim>\<open>Array.prototype.filter(Boolean)\<close> on a list of optional strings.\<close>

fun filter_Boolean :: "string option list \<Rightarrow> string list" where
  "filter_Boolean [] = []"
| "filter_Boolean (v # vs) =
     (case v of
        Some s \<Rightarrow> if Boolean v then s # filter_Boolean vs else filter_Boolean vs
      | None \<Rightarrow> filter_Boolean vs)"

text \<open>\<^verbatim>\<open>Array.prototype.join(separator)\<close> on a list of strings.\<close>

fun join :: "string \<Rightarrow> string list \<Rightarrow> string" where
  "join separator [] = []"
| "join separator [x] = x"
| "join separator (x # y # ys) = x @ separator @ join separator (y # ys)"

text \<open>
  The SWR key, from \<^verbatim>\<open>token.address\<close>, \<^verbatim>\<open>token.networkId\<close>,
  \<^verbatim>\<open>account.address\<close> and the optional \<^verbatim>\<open>account.network.multicallAddress\<close>.
\<close>

definition key :: "string \<Rightarrow> string \<Rightarrow> string \<Rightarrow> string option \<Rightarrow> string" where
  "key tokenAddress networkId accountAddress multicallAddress =
     join ''-'' (filter_Boolean
       [Some ''balanceOf'', Some tokenAddress, Some networkId, Some accountAddress,
        multicallAddress])"

text \<open>What the fetcher resolves to: \<^verbatim>\<open>string | TokenBalanceErrorMessage\<close>.\<close>

datatype data = Balance string | ErrorMessage TokenBalanceErrorMessage

text \<open>
  The fetcher handed to \<^verbatim>\<open>useSWR\<close>. Its first argument is how the awaited
  \<^verbatim>\<open>getTokenBalanceForWalletAccount(token.address, account.toBaseWalletAccount())\<close>
  settled: rejected with an error, or resolved with a balance. The result is how
  the fetcher's own promise settles (\<open>Inl\<close>: rejected), and the console output.
\<close>

definition fetcher ::
  "env \<Rightarrow> (js_object + string) \<Rightarrow> bool \<Rightarrow> string \<Rightarrow> string option
     \<Rightarrow> (exn + data) \<times> console_warn list" where
  "fetcher env getTokenBalanceForWalletAccount shouldReturnError tokenAddress multicallAddress =
     (case getTokenBalanceForWalletAccount of
        Inr balance \<Rightarrow> (Inr (Balance balance), [])
      | Inl error \<Rightarrow>
          if shouldReturnError then
            (case errorToMessage env error tokenAddress multicallAddress of
               (Inr m, out) \<Rightarrow> (Inr (ErrorMessage m), out)
             | (Inl e, out) \<Rightarrow> (Inl e, out))
          else (Inl (Thrown error), []))"

text \<open>
  The effect that refetches: \<^verbatim>\<open>if (ref.current > pendingTransactions.length) mutate();
  ref.current = pendingTransactions.length\<close>. It returns whether \<^verbatim>\<open>mutate\<close> was
  called and the new \<^verbatim>\<open>ref.current\<close>.
\<close>

definition effect :: "nat \<Rightarrow> nat \<Rightarrow> bool \<times> nat" where
  "effect pendingTransactionsLengthRef pendingTransactionsLength =
     (pendingTransactionsLengthRef > pendingTransactionsLength, pendingTransactionsLength)"

text \<open>
  The effect over the renders that follow: one entry per observed count, saying
  whether \<^verbatim>\<open>mutate\<close> was called, and the ref left at the end. React skips the
  effect on a render where the count is the one of the render before; running it
  there calls nothing and writes the value the ref already holds.
\<close>

fun effects :: "nat \<Rightarrow> nat list \<Rightarrow> bool list \<times> nat" where
  "effects ref [] = ([], ref)"
| "effects ref (len # lens) =
     (case effect ref len of
        (mutated, ref') \<Rightarrow>
          (case effects ref' lens of (rest, final) \<Rightarrow> (mutated # rest, final)))"

text \<open>
  The first render initialises the ref with the count it observes
  (\<^verbatim>\<open>useRef(pendingTransactions.length)\<close>) and then runs the effect on that
  same count; the later renders observe \<open>lens\<close>.
\<close>

definition watch :: "nat \<Rightarrow> nat list \<Rightarrow> bool list \<times> nat" where
  "watch len lens = effects len (len # lens)"

section \<open>Notions used to state the properties\<close>

text \<open>A string without the separator of the key.\<close>

definition separator_free :: "string \<Rightarrow> bool" where
  "separator_free s = (CHR ''-'' \<notin> set s)"

text \<open>
  The shape the regular expression accepts: \<^verbatim>\<open>0\<close>, then \<^verbatim>\<open>x\<close> or \<^verbatim>\<open>X\<close>,
  then one or more hexadecimal digits and nothing else.
\<close>

definition hex_address_shaped :: "string \<Rightarrow> bool" where
  "hex_address_shaped a =
     (case a of
        z # x # ds \<Rightarrow> z = CHR ''0'' \<and> x \<in> set ''xX'' \<and> ds \<noteq> [] \<and> list_all HexDigit ds
      | _ \<Rightarrow> False)"

text \<open>No substring of the message has that shape.\<close>

definition no_hex_address :: "string \<Rightarrow> bool" where
  "no_hex_address msg = (\<forall>pre a post. msg = pre @ a @ post \<longrightarrow> \<not> hex_address_shaped a)"

text \<open>
  \<open>a\<close> is the first substring of the message with that shape: it occurs in the
  message, no hexadecimal digit follows it, and no substring of that shape
  starts further left.
\<close>

definition is_first_hex_address :: "string \<Rightarrow> string \<Rightarrow> bool" where
  "is_first_hex_address msg a =
     (\<exists>pre post. msg = pre @ a @ post \<and> hex_address_shaped a
        \<and> (post = [] \<or> \<not> HexDigit (hd post))
        \<and> (\<forall>pre' a' post'. msg = pre' @ a' @ post' \<and> hex_address_shaped a'
              \<longrightarrow> length pre \<le> length pre'))"

text \<open>A string that begins with a substring of that shape.\<close>

definition starts_with_hex_address :: "string \<Rightarrow> bool" where
  "starts_with_hex_address u =
     (case u of z # x # d # _ \<Rightarrow> z = CHR ''0'' \<and> x \<in> set ''xX'' \<and> HexDigit d | _ \<Rightarrow> False)"

text \<open>
  What a numeric string denotes, read off the grammar of
  \<^verbatim>\<open>StringNumericLiteral\<close>. An exponent part is empty, or \<^verbatim>\<open>e\<close> or
  \<^verbatim>\<open>E\<close>, an optional sign and decimal digits.
\<close>

definition exponent_part :: "string \<Rightarrow> int \<Rightarrow> bool" where
  "exponent_part e k =
     (e = [] \<and> k = 0
      \<or> (\<exists>c ds. c \<in> set ''eE'' \<and> ds \<noteq> [] \<and> list_all DecimalDigit ds
            \<and> (e = c # ds \<and> k = MV 10 ds
               \<or> e = c # CHR ''+'' # ds \<and> k = MV 10 ds
               \<or> e = c # CHR ''-'' # ds \<and> k = - MV 10 ds)))"

text \<open>
  The digits before the exponent: decimal digits, with or without a point among
  them, before it or after it, and at least one digit.
\<close>

definition decimal_mantissa :: "string \<Rightarrow> rat \<Rightarrow> bool" where
  "decimal_mantissa m q =
     (\<exists>ip fp. list_all DecimalDigit ip \<and> list_all DecimalDigit fp
        \<and> (m = ip \<and> ip \<noteq> [] \<and> fp = [] \<or> m = ip @ CHR ''.'' # fp \<and> (ip \<noteq> [] \<or> fp \<noteq> []))
        \<and> q = of_int (MV 10 ip) + of_int (MV 10 fp) / 10 ^ length fp)"

definition unsigned_decimal_literal :: "string \<Rightarrow> rat \<Rightarrow> bool" where
  "unsigned_decimal_literal u q =
     (\<exists>m e qm k. u = m @ e \<and> decimal_mantissa m qm \<and> exponent_part e k
        \<and> q = qm * (if 0 \<le> k then 10 ^ nat k else 1 / 10 ^ nat (- k)))"

text \<open>A hexadecimal, octal or binary integer literal.\<close>

definition non_decimal_integer_literal :: "string \<Rightarrow> int \<Rightarrow> bool" where
  "non_decimal_integer_literal u n =
     (\<exists>p ds. u = CHR ''0'' # p # ds \<and> ds \<noteq> []
        \<and> (p \<in> set ''xX'' \<and> list_all HexDigit ds \<and> n = MV 16 ds
           \<or> p \<in> set ''oO'' \<and> list_all (\<lambda>c. c \<in> set ''01234567'') ds \<and> n = MV 8 ds
           \<or> p \<in> set ''bB'' \<and> list_all (\<lambda>c. c \<in> set ''01'') ds \<and> n = MV 2 ds))"

text \<open>
  A numeric string that denotes the number \<open>q\<close>: white space, then a literal
  for \<open>q\<close> that is a decimal literal, with or without the sign \<^verbatim>\<open>+\<close>, or
  an integer literal in another base, then white space. (A literal with the sign
  \<^verbatim>\<open>-\<close> denotes no positive number, and \<^verbatim>\<open>Infinity\<close> no number at all.)
\<close>

definition numeric_string :: "string \<Rightarrow> rat \<Rightarrow> bool" where
  "numeric_string s q =
     (\<exists>ws lit ws'. s = ws @ lit @ ws'
        \<and> list_all StrWhiteSpaceChar ws \<and> list_all StrWhiteSpaceChar ws'
        \<and> (unsigned_decimal_literal lit q
           \<or> (\<exists>u. lit = CHR ''+'' # u \<and> unsigned_decimal_literal u q)
           \<or> (\<exists>n. non_decimal_integer_literal lit n \<and> q = of_int n)))"

section \<open>The request key\<close>

lemma key_eq:
  "t \<noteq> [] \<Longrightarrow> n \<noteq> [] \<Longrightarrow> a \<noteq> [] \<Longrightarrow>
   key t n a m = ''balanceOf-'' @ t @ ''-'' @ n @ ''-'' @ a
     @ (case m of None \<Rightarrow> [] | Some s \<Rightarrow> if s = [] then [] else ''-'' @ s)"
  by (cases m) (simp_all add: key_def Boolean_def)

lemma split_at_separator:
  assumes "c \<notin> set x" "c \<notin> set x'" "x @ c # r = x' @ c # r'"
  shows "x = x' \<and> r = r'"
proof -
  have "takeWhile (\<lambda>d. d \<noteq> c) (x @ c # r) = x" "takeWhile (\<lambda>d. d \<noteq> c) (x' @ c # r') = x'"
    using assms(1,2) by (auto simp: takeWhile_tail)
  with assms(3) have "x = x'" by simp
  with assms(3) show ?thesis by simp
qed

lemma key_eq_separator_free:
  assumes ne: "t \<noteq> []" "n \<noteq> []" "a \<noteq> []" "t' \<noteq> []" "n' \<noteq> []" "a' \<noteq> []"
    and m: "m \<noteq> Some []" "m' \<noteq> Some []"
    and sf: "separator_free t" "separator_free n" "separator_free a"
            "separator_free t'" "separator_free n'" "separator_free a'"
    and eq: "key t n a m = key t' n' a' m'"
  shows "t = t' \<and> n = n' \<and> a = a' \<and> m = m'"
proof -
  let ?sfx = "\<lambda>m. case m of None \<Rightarrow> [] | Some s \<Rightarrow> if s = [] then [] else ''-'' @ s"
  have sf': "CHR ''-'' \<notin> set t" "CHR ''-'' \<notin> set n" "CHR ''-'' \<notin> set a"
            "CHR ''-'' \<notin> set t'" "CHR ''-'' \<notin> set n'" "CHR ''-'' \<notin> set a'"
    using sf by (simp_all add: separator_free_def)
  note key_eq [OF ne(1) ne(2) ne(3), of m] key_eq [OF ne(4) ne(5) ne(6), of m']
  with eq have 0: "t @ CHR ''-'' # (n @ CHR ''-'' # (a @ ?sfx m))
                 = t' @ CHR ''-'' # (n' @ CHR ''-'' # (a' @ ?sfx m'))"
    by simp
  note s1 = split_at_separator [OF sf'(1) sf'(4) 0]
  then have t: "t = t'"
    and 1: "n @ CHR ''-'' # (a @ ?sfx m) = n' @ CHR ''-'' # (a' @ ?sfx m')"
    by simp_all
  note s2 = split_at_separator [OF sf'(2) sf'(5) 1]
  then have n: "n = n'" and 2: "a @ ?sfx m = a' @ ?sfx m'"
    by simp_all
  have "a = a' \<and> m = m'"
  proof (cases m)
    case None
    show ?thesis
    proof (cases m')
      case None
      with \<open>m = None\<close> 2 show ?thesis by simp
    next
      case (Some s')
      with \<open>m = None\<close> 2 m(2) have "a = a' @ CHR ''-'' # s'" by simp
      with sf'(3) show ?thesis by auto
    qed
  next
    case (Some s)
    show ?thesis
    proof (cases m')
      case None
      with Some 2 m(1) have "a' = a @ CHR ''-'' # s" by simp
      with sf'(6) show ?thesis by auto
    next
      case (Some s')
      with \<open>m = Some s\<close> 2 m have 3: "a @ CHR ''-'' # s = a' @ CHR ''-'' # s'" by simp
      have "a = a' \<and> s = s'"
        by (rule split_at_separator [OF sf'(3) sf'(6) 3])
      with Some \<open>m = Some s\<close> show ?thesis by simp
    qed
  qed
  with t n show ?thesis by simp
qed

lemma key_eq_one_component:
  assumes ne: "t \<noteq> []" "n \<noteq> []" "a \<noteq> []" "t' \<noteq> []" "n' \<noteq> []" "a' \<noteq> []"
    and m: "m \<noteq> Some []" "m' \<noteq> Some []"
    and one: "(n = n' \<and> a = a' \<and> m = m') \<or> (t = t' \<and> a = a' \<and> m = m')
              \<or> (t = t' \<and> n = n' \<and> m = m') \<or> (t = t' \<and> n = n' \<and> a = a')"
    and eq: "key t n a m = key t' n' a' m'"
  shows "t = t' \<and> n = n' \<and> a = a' \<and> m = m'"
  using eq one m by (auto simp: key_eq ne split: option.splits)

text \<open>
  C2, as stated, fails: the separator may occur inside a component, so two
  different tuples can be joined to the same key (a network id such as
  \<^verbatim>\<open>goerli-alpha\<close> holds one), and an empty multicall address is filtered out
  like an absent one.
\<close>

theorem key_collision:
  "key ''0x1'' ''goerli-alpha'' ''0x2'' None = key ''0x1-goerli'' ''alpha'' ''0x2'' None
   \<and> (''0x1'', ''goerli-alpha'', ''0x2'', None :: string option)
       \<noteq> (''0x1-goerli'', ''alpha'', ''0x2'', None)
   \<and> key ''0x1'' ''goerli-alpha'' ''0x2'' (Some []) = key ''0x1'' ''goerli-alpha'' ''0x2'' None"
  by (simp add: key_def Boolean_def)

text \<open>
  C2, amended: take two tuples whose token address, network id and account
  address are non-empty and whose multicall address is absent or non-empty. If
  they differ in at most one component, or if none of their token addresses,
  network ids and account addresses contains the separator \<^verbatim>\<open>-\<close>, then they
  have the same key exactly when they are the same tuple. (The key is a function
  of the tuple, so equal tuples have equal keys.)
\<close>

theorem key_injective_amended:
  assumes "t \<noteq> []" "n \<noteq> []" "a \<noteq> []" "t' \<noteq> []" "n' \<noteq> []" "a' \<noteq> []"
    and "m \<noteq> Some []" "m' \<noteq> Some []"
    and "(separator_free t \<and> separator_free n \<and> separator_free a
          \<and> separator_free t' \<and> separator_free n' \<and> separator_free a')
         \<or> (n = n' \<and> a = a' \<and> m = m') \<or> (t = t' \<and> a = a' \<and> m = m')
         \<or> (t = t' \<and> n = n' \<and> m = m') \<or> (t = t' \<and> n = n' \<and> a = a')"
  shows "key t n a m = key t' n' a' m' \<longleftrightarrow> (t, n, a, m) = (t', n', a', m')"
proof
  assume eq: "key t n a m = key t' n' a' m'"
  from assms(9) have "t = t' \<and> n = n' \<and> a = a' \<and> m = m'"
  proof
    assume "separator_free t \<and> separator_free n \<and> separator_free a
          \<and> separator_free t' \<and> separator_free n' \<and> separator_free a'"
    with assms(1-8) eq show ?thesis by (intro key_eq_separator_free) simp_all
  next
    assume "(n = n' \<and> a = a' \<and> m = m') \<or> (t = t' \<and> a = a' \<and> m = m')
         \<or> (t = t' \<and> n = n' \<and> m = m') \<or> (t = t' \<and> n = n' \<and> a = a')"
    with assms(1-8) eq show ?thesis by (intro key_eq_one_component) simp_all
  qed
  then show "(t, n, a, m) = (t', n', a', m')" by simp
next
  assume "(t, n, a, m) = (t', n', a', m')"
  then show "key t n a m = key t' n' a' m'" by simp
qed

text \<open>
  The amended C2 at two pairs of tuples: one differing only in the presence of the
  multicall address (with a separator inside the network id), one differing in
  several components, none of which holds the separator.
\<close>

theorem key_injective_amended_witness:
  "(key ''0x1'' ''goerli-alpha'' ''0x2'' None = key ''0x1'' ''goerli-alpha'' ''0x2'' (Some ''0x3''))
     = ((''0x1'', ''goerli-alpha'', ''0x2'', None) = (''0x1'', ''goerli-alpha'', ''0x2'', Some ''0x3''))
   \<and> (key ''0x1'' ''localhost'' ''0x2'' None = key ''0x3'' ''localhost'' ''0x4'' (Some ''0x5''))
     = ((''0x1'', ''localhost'', ''0x2'', None) = (''0x3'', ''localhost'', ''0x4'', Some ''0x5''))"
  using key_injective_amended [of "''0x1''" "''goerli-alpha''" "''0x2''"
          "''0x1''" "''goerli-alpha''" "''0x2''" None "Some ''0x3''"]
        key_injective_amended [of "''0x1''" "''localhost''" "''0x2''"
          "''0x3''" "''localhost''" "''0x4''" None "Some ''0x5''"]
  by (simp add: separator_free_def)

section \<open>The fetcher\<close>

text \<open>
  C6: when the balance query resolves, the fetcher resolves to exactly the string
  the query returned, whatever \<^verbatim>\<open>shouldReturnError\<close> is, and writes nothing
  to the console.
\<close>

theorem fetcher_success:
  "fetcher env (Inr balance) shouldReturnError tokenAddress multicallAddress
     = (Inr (Balance balance), [])"
  by (simp add: fetcher_def)

section \<open>The refetching effect\<close>

lemma effects_eq:
  "effects ref lens = (map2 (\<lambda>prev cur. cur < prev) (ref # lens) lens, last (ref # lens))"
  by (induction lens arbitrary: ref) (simp_all add: effect_def)

text \<open>
  C5: one run of the effect calls \<^verbatim>\<open>mutate\<close> exactly when the new count is
  strictly below the retained one, and always retains the new count. Over the
  renders of one subscription, the first observation calls nothing, every later
  one calls \<^verbatim>\<open>mutate\<close> exactly when its count is below the count observed just
  before, and the ref ends at the last count. For the observations
  3, 3, 5, 2, 2, 4 the only call is at the step from 5 to 2.
\<close>

theorem watch_fires_on_decrease:
  "effect ref len = (len < ref, len)
   \<and> watch len lens
       = (False # map2 (\<lambda>prev cur. cur < prev) (len # lens) lens, last (len # lens))
   \<and> watch 3 [3, 5, 2, 2, 4] = ([False, False, False, True, False, False], 4)"
  by (simp add: effect_def watch_def effects_eq)

section \<open>What the regular expression finds\<close>

text \<open>
  The first element of the match list is the first substring of the message that
  has the shape of a hexadecimal address, and the list is empty exactly when the
  message has no such substring.
\<close>

lemma starts_with_hex_address_iff:
  "starts_with_hex_address u \<longleftrightarrow> (\<exists>a post. u = a @ post \<and> hex_address_shaped a)"
proof
  assume "starts_with_hex_address u"
  then obtain z x d r where u: "u = z # x # d # r" and "z = CHR ''0''" "x \<in> set ''xX''" "HexDigit d"
    by (auto simp: starts_with_hex_address_def split: list.splits)
  then have "u = [z, x, d] @ r \<and> hex_address_shaped [z, x, d]"
    by (simp add: hex_address_shaped_def)
  then show "\<exists>a post. u = a @ post \<and> hex_address_shaped a" by blast
next
  assume "\<exists>a post. u = a @ post \<and> hex_address_shaped a"
  then obtain a post where u: "u = a @ post" and a: "hex_address_shaped a" by blast
  from a obtain x ds where a': "a = CHR ''0'' # x # ds" "x \<in> set ''xX''" "ds \<noteq> []" "list_all HexDigit ds"
    by (auto simp: hex_address_shaped_def split: list.splits)
  from a'(3,4) obtain d ds' where "ds = d # ds'" "HexDigit d"
    by (cases ds) auto
  with u a'(1,2) show "starts_with_hex_address u"
    by (simp add: starts_with_hex_address_def)
qed

lemma takeWhile_nonempty_iff:
  "takeWhile P ds \<noteq> [] \<longleftrightarrow> (\<exists>d r. ds = d # r \<and> P d)"
  by (cases ds) auto

lemma matches_head_condition:
  "(c = CHR ''0'' \<and> x \<in> set ''xX'' \<and> takeWhile HexDigit ds \<noteq> []) \<longleftrightarrow> starts_with_hex_address (c # x # ds)"
  by (auto simp: starts_with_hex_address_def takeWhile_nonempty_iff split: list.splits)

lemma matches_step:
  "matches (c # x # ds) =
     (if starts_with_hex_address (c # x # ds)
      then (c # x # takeWhile HexDigit ds) # matches (dropWhile HexDigit ds)
      else matches (x # ds))"
  by (simp only: matches.simps matches_head_condition)

lemma matches_Nil:
  "matches s = [] \<Longrightarrow> \<not> starts_with_hex_address (drop k s)"
proof (induction s arbitrary: k rule: matches.induct)
  case 1
  then show ?case by (simp add: starts_with_hex_address_def)
next
  case (2 c)
  then show ?case by (cases k) (simp_all add: starts_with_hex_address_def)
next
  case (3 c x ds)
  from "3.prems" have no: "\<not> starts_with_hex_address (c # x # ds)" and rest: "matches (x # ds) = []"
    by (simp_all add: matches_step del: matches.simps split: if_splits)
  from no have "\<not> (c = CHR ''0'' \<and> x \<in> set ''xX'' \<and> takeWhile HexDigit ds \<noteq> [])"
    unfolding matches_head_condition [symmetric] .
  from "3.IH"(2) [OF this rest] have ih: "\<And>j. \<not> starts_with_hex_address (drop j (x # ds))" .
  show ?case
  proof (cases k)
    case 0
    with no show ?thesis by simp
  next
    case (Suc j)
    with ih [of j] show ?thesis by simp
  qed
qed

lemma matches_Cons:
  "matches s = a # rest \<Longrightarrow>
     \<exists>pre post. s = pre @ a @ post \<and> hex_address_shaped a
        \<and> (post = [] \<or> \<not> HexDigit (hd post))
        \<and> (\<forall>k<length pre. \<not> starts_with_hex_address (drop k s))"
proof (induction s rule: matches.induct)
  case 1
  then show ?case by simp
next
  case (2 c)
  then show ?case by simp
next
  case (3 c x ds)
  show ?case
  proof (cases "starts_with_hex_address (c # x # ds)")
    case True
    then have cond: "c = CHR ''0''" "x \<in> set ''xX''" "takeWhile HexDigit ds \<noteq> []"
      unfolding matches_head_condition [symmetric] by simp_all
    from "3.prems" True have a: "a = c # x # takeWhile HexDigit ds"
      by (simp add: matches_step del: matches.simps)
    have "c # x # ds = [] @ a @ dropWhile HexDigit ds" by (simp add: a)
    moreover have "list_all HexDigit (takeWhile HexDigit ds)"
      by (auto simp: list_all_iff dest: set_takeWhileD)
    with cond have "hex_address_shaped a"
      by (simp add: a hex_address_shaped_def)
    moreover have "dropWhile HexDigit ds = [] \<or> \<not> HexDigit (hd (dropWhile HexDigit ds))"
      using hd_dropWhile by blast
    moreover have "\<forall>k<length ([] :: string). \<not> starts_with_hex_address (drop k (c # x # ds))"
      by simp
    ultimately show ?thesis by blast
  next
    case False
    then have ncond: "\<not> (c = CHR ''0'' \<and> x \<in> set ''xX'' \<and> takeWhile HexDigit ds \<noteq> [])"
      unfolding matches_head_condition [symmetric] .
    from "3.prems" False have "matches (x # ds) = a # rest"
      by (simp add: matches_step del: matches.simps)
    from "3.IH"(2) [OF ncond this] obtain pre post where
      p: "x # ds = pre @ a @ post" "hex_address_shaped a" "post = [] \<or> \<not> HexDigit (hd post)"
         "\<forall>k<length pre. \<not> starts_with_hex_address (drop k (x # ds))"
      by blast
    have "\<forall>k<length (c # pre). \<not> starts_with_hex_address (drop k (c # x # ds))"
    proof (intro allI impI)
      fix k assume k: "k < length (c # pre)"
      show "\<not> starts_with_hex_address (drop k (c # x # ds))"
      proof (cases k)
        case 0
        with False show ?thesis by simp
      next
        case (Suc j)
        with k have "j < length pre" by simp
        with p(4) have "\<not> starts_with_hex_address (drop j (x # ds))" by blast
        with Suc show ?thesis by simp
      qed
    qed
    moreover have "c # x # ds = (c # pre) @ a @ post" using p(1) by simp
    ultimately show ?thesis using p(2,3) by blast
  qed
qed

lemma first_match_match:
  "first_match (match msg) = (case matches msg of [] \<Rightarrow> None | a # _ \<Rightarrow> Some a)"
  by (simp add: first_match_def match_def split: list.splits)

lemma no_hex_address_iff:
  "no_hex_address msg \<longleftrightarrow> (\<forall>k. \<not> starts_with_hex_address (drop k msg))"
proof
  assume no: "no_hex_address msg"
  show "\<forall>k. \<not> starts_with_hex_address (drop k msg)"
  proof
    fix k
    show "\<not> starts_with_hex_address (drop k msg)"
    proof
      assume "starts_with_hex_address (drop k msg)"
      then obtain a post where "drop k msg = a @ post" "hex_address_shaped a"
        unfolding starts_with_hex_address_iff by blast
      then have "msg = take k msg @ a @ post \<and> hex_address_shaped a"
        by (metis append_take_drop_id)
      with no show False unfolding no_hex_address_def by blast
    qed
  qed
next
  assume no: "\<forall>k. \<not> starts_with_hex_address (drop k msg)"
  show "no_hex_address msg"
    unfolding no_hex_address_def
  proof (intro allI impI)
    fix pre a post
    assume "msg = pre @ a @ post"
    then have "drop (length pre) msg = a @ post" by simp
    with no show "\<not> hex_address_shaped a"
      unfolding starts_with_hex_address_iff by blast
  qed
qed

lemma first_match_None_iff:
  "first_match (match msg) = None \<longleftrightarrow> no_hex_address msg"
proof
  assume "first_match (match msg) = None"
  then have "matches msg = []" by (simp add: first_match_match split: list.splits)
  then show "no_hex_address msg"
    unfolding no_hex_address_iff using matches_Nil by blast
next
  assume no: "no_hex_address msg"
  show "first_match (match msg) = None"
  proof (cases "matches msg")
    case Nil
    then show ?thesis by (simp add: first_match_match)
  next
    case (Cons a rest)
    from matches_Cons [OF this] obtain pre post where "msg = pre @ a @ post" "hex_address_shaped a"
      by blast
    with no show ?thesis unfolding no_hex_address_def by blast
  qed
qed

lemma hex_run_unique:
  assumes "list_all HexDigit ds" "list_all HexDigit ds'"
    and "post = [] \<or> \<not> HexDigit (hd post)" "post' = [] \<or> \<not> HexDigit (hd post')"
    and "ds @ post = ds' @ post'"
  shows "ds = ds'"
proof -
  have "\<And>ds post. list_all HexDigit ds \<Longrightarrow> post = [] \<or> \<not> HexDigit (hd post)
          \<Longrightarrow> takeWhile HexDigit (ds @ post) = ds"
    by (auto simp: list_all_iff takeWhile_append2 takeWhile_eq_Nil_iff neq_Nil_conv)
  from this [OF assms(1,3)] this [OF assms(2,4)] assms(5) show ?thesis by simp
qed

lemma is_first_hex_address_iff:
  "is_first_hex_address msg a \<longleftrightarrow> first_match (match msg) = Some a"
proof
  assume "first_match (match msg) = Some a"
  then obtain rest where m: "matches msg = a # rest"
    by (auto simp: first_match_match split: list.splits)
  from matches_Cons [OF m] obtain pre post where
    p: "msg = pre @ a @ post" "hex_address_shaped a" "post = [] \<or> \<not> HexDigit (hd post)"
       "\<forall>k<length pre. \<not> starts_with_hex_address (drop k msg)"
    by blast
  have "\<forall>pre' a' post'. msg = pre' @ a' @ post' \<and> hex_address_shaped a' \<longrightarrow> length pre \<le> length pre'"
  proof (intro allI impI)
    fix pre' a' post'
    assume h: "msg = pre' @ a' @ post' \<and> hex_address_shaped a'"
    then have "drop (length pre') msg = a' @ post'" by simp
    with h have "starts_with_hex_address (drop (length pre') msg)"
      unfolding starts_with_hex_address_iff by blast
    with p(4) show "length pre \<le> length pre'" by (meson not_le_imp_less)
  qed
  with p(1-3) show "is_first_hex_address msg a"
    unfolding is_first_hex_address_def by blast
next
  assume "is_first_hex_address msg a"
  then obtain pre post where
    p: "msg = pre @ a @ post" "hex_address_shaped a" "post = [] \<or> \<not> HexDigit (hd post)"
       "\<forall>pre' a' post'. msg = pre' @ a' @ post' \<and> hex_address_shaped a' \<longrightarrow> length pre \<le> length pre'"
    unfolding is_first_hex_address_def by blast
  from p(1,2) have "\<not> no_hex_address msg" unfolding no_hex_address_def by blast
  then obtain b where b: "first_match (match msg) = Some b"
    using first_match_None_iff by (cases "first_match (match msg)") auto
  then obtain rest where m: "matches msg = b # rest"
    by (auto simp: first_match_match split: list.splits)
  from matches_Cons [OF m] obtain pre0 post0 where
    q: "msg = pre0 @ b @ post0" "hex_address_shaped b" "post0 = [] \<or> \<not> HexDigit (hd post0)"
       "\<forall>k<length pre0. \<not> starts_with_hex_address (drop k msg)"
    by blast
  from p(4) q(1,2) have le1: "length pre \<le> length pre0" by blast
  have "drop (length pre) msg = a @ post" using p(1) by simp
  with p(2) have "starts_with_hex_address (drop (length pre) msg)"
    unfolding starts_with_hex_address_iff by blast
  with q(4) have "length pre0 \<le> length pre" by (meson not_le_imp_less)
  with le1 have len: "length pre = length pre0" by simp
  with p(1) q(1) have pre: "pre = pre0" and eq: "a @ post = b @ post0"
    by (metis append_eq_append_conv)+
  from p(2) obtain x ds where a: "a = CHR ''0'' # x # ds" "list_all HexDigit ds"
    by (auto simp: hex_address_shaped_def split: list.splits)
  from q(2) obtain y es where b': "b = CHR ''0'' # y # es" "list_all HexDigit es"
    by (auto simp: hex_address_shaped_def split: list.splits)
  from eq a(1) b'(1) have xy: "x = y" and "ds @ post = es @ post0" by simp_all
  from hex_run_unique [OF a(2) b'(2) p(3) q(3) this(2)] have "ds = es" .
  with xy a(1) b'(1) have "a = b" by simp
  with b show "first_match (match msg) = Some a" by simp
qed

lemma first_match_cases:
  "no_hex_address msg \<or> (\<exists>a. is_first_hex_address msg a)"
  unfolding is_first_hex_address_iff first_match_None_iff [symmetric]
  by (cases "first_match (match msg)") auto

lemma matches_nonempty:
  "first_match (match msg) = Some a \<Longrightarrow> a \<noteq> []"
  using is_first_hex_address_iff [of _ a]
  by (auto simp: is_first_hex_address_def hex_address_shaped_def)

section \<open>The classifier on an undeployed contract\<close>

lemma errorToMessage_uninitialized:
  assumes "get error ''errorCode'' = JStr ''StarknetErrorCode.UNINITIALIZED_CONTRACT''"
    and "get error ''message'' = JStr msg"
  shows "errorToMessage env error tokenAddress multicallAddress =
     (Inr (case first_match (match msg) of
             None \<Rightarrow> \<lparr>message = ''Missing contract'', description = JStr msg\<rparr>
           | Some a \<Rightarrow>
               if isEqualAddress env a tokenAddress then
                 \<lparr>message = ''Token not found'',
                  description = JStr (''Token with address '' @ tokenAddress
                    @ '' not deployed on this network'')\<rparr>
               else (case multicallAddress of
                       Some mc \<Rightarrow>
                         if mc \<noteq> [] \<and> isEqualAddress env a mc then
                           \<lparr>message = ''No Multicall'',
                            description = JStr (''Multicall contract with address '' @ mc
                              @ '' not deployed on this network'')\<rparr>
                         else
                           \<lparr>message = ''Missing contract'',
                            description = JStr (''Contract with address '' @ a
                              @ '' not deployed on this network'')\<rparr>
                     | None \<Rightarrow>
                         \<lparr>message = ''Missing contract'',
                          description = JStr (''Contract with address '' @ a
                            @ '' not deployed on this network'')\<rparr>)), [])"
  using assms
  by (auto simp: errorToMessage_def Let_def Boolean_def dest: matches_nonempty split: option.splits)

text \<open>
  The decision table of the branch. Take an error whose code is
  \<^verbatim>\<open>StarknetErrorCode.UNINITIALIZED_CONTRACT\<close> and whose message is a
  string. If \<open>a\<close> is the first substring of the message shaped like a
  hexadecimal address, the classifier returns, in this order of precedence:
  \<^verbatim>\<open>Token not found\<close>, naming the token address, when \<^verbatim>\<open>isEqualAddress\<close>
  holds of \<open>a\<close> and the token address; else \<^verbatim>\<open>No Multicall\<close>, naming the
  multicall address, when that address is a non-empty string and
  \<^verbatim>\<open>isEqualAddress\<close> holds of \<open>a\<close> and it; else \<^verbatim>\<open>Missing contract\<close>,
  naming \<open>a\<close>. If the message has no such substring it returns
  \<^verbatim>\<open>Missing contract\<close> with the message itself as description. One of the
  two cases always applies. No description names a network.
\<close>

lemma errorToMessage_decision_table:
  assumes "get error ''errorCode'' = JStr ''StarknetErrorCode.UNINITIALIZED_CONTRACT''"
    and "get error ''message'' = JStr msg"
  shows "(\<forall>a. is_first_hex_address msg a \<longrightarrow>
            errorToMessage env error tokenAddress multicallAddress =
              (Inr (if isEqualAddress env a tokenAddress then
                      \<lparr>message = ''Token not found'',
                       description = JStr (''Token with address '' @ tokenAddress
                         @ '' not deployed on this network'')\<rparr>
                    else (case multicallAddress of
                            Some mc \<Rightarrow>
                              if mc \<noteq> [] \<and> isEqualAddress env a mc then
                                \<lparr>message = ''No Multicall'',
                                 description = JStr (''Multicall contract with address '' @ mc
                                   @ '' not deployed on this network'')\<rparr>
                              else
                                \<lparr>message = ''Missing contract'',
                                 description = JStr (''Contract with address '' @ a
                                   @ '' not deployed on this network'')\<rparr>
                          | None \<Rightarrow>
                              \<lparr>message = ''Missing contract'',
                               description = JStr (''Contract with address '' @ a
                                 @ '' not deployed on this network'')\<rparr>)), []))
       \<and> (no_hex_address msg \<longrightarrow>
            errorToMessage env error tokenAddress multicallAddress =
              (Inr \<lparr>message = ''Missing contract'', description = JStr msg\<rparr>, []))
       \<and> (no_hex_address msg \<or> (\<exists>a. is_first_hex_address msg a))"
  by (simp add: errorToMessage_uninitialized [OF assms] is_first_hex_address_iff
        first_match_None_iff [symmetric] first_match_cases [unfolded is_first_hex_address_iff first_match_None_iff [symmetric]])

text \<open>
  C1 fails on the code: an error with that code and no message has no
  extractable address, and the classifier does not return
  \<^verbatim>\<open>Missing contract\<close> with the raw message (\<^verbatim>\<open>undefined\<close>) as the
  claim says: \<^verbatim>\<open>message.match\<close> throws before any result is built.
\<close>

theorem errorToMessage_uninitialized_without_message:
  "get [(''errorCode'', JStr ''StarknetErrorCode.UNINITIALIZED_CONTRACT'')] ''message'' = JUndefined
   \<and> errorToMessage env [(''errorCode'', JStr ''StarknetErrorCode.UNINITIALIZED_CONTRACT'')]
         tokenAddress multicallAddress
       \<noteq> (Inr \<lparr>message = ''Missing contract'', description = JUndefined\<rparr>, [])"
  by (simp add: errorToMessage_def get_def)

section \<open>What \<^verbatim>\<open>Number\<close> makes of a numeric string\<close>

text \<open>
  429 and 502 are doubles, so rounding leaves them alone; and a numeric string
  that denotes \<open>q\<close> is converted to the double nearest to \<open>q\<close>.
\<close>

lemma RoundMVResult_429: "RoundMVResult 429 = Fin 429"
  by (simp add: RoundMVResult_def Number_value_def floor_log2_def pow2_def round_half_even_def Let_def)

lemma RoundMVResult_502: "RoundMVResult 502 = Fin 502"
  by (simp add: RoundMVResult_def Number_value_def floor_log2_def pow2_def round_half_even_def Let_def)

lemma not_digit_simps:
  "\<not> DecimalDigit CHR ''.''" "\<not> DecimalDigit CHR ''+''" "\<not> DecimalDigit CHR ''-''"
  "c \<in> set ''eE'' \<Longrightarrow> \<not> DecimalDigit c"
  "c \<in> set ''xXoObB'' \<Longrightarrow> \<not> DecimalDigit c"
  by (auto simp: DecimalDigit_def)

lemma digit_not_sign:
  "DecimalDigit d \<Longrightarrow> d \<noteq> CHR ''+'' \<and> d \<noteq> CHR ''-'' \<and> d \<noteq> CHR ''.''"
  by (auto simp: DecimalDigit_def)

lemma span_digits:
  assumes "list_all P xs" "ys = [] \<or> \<not> P (hd ys)"
  shows "takeWhile P (xs @ ys) = xs" "dropWhile P (xs @ ys) = ys"
proof -
  from assms(2) have "takeWhile P ys = []" "dropWhile P ys = ys"
    by (cases ys; auto)+
  with assms(1) show "takeWhile P (xs @ ys) = xs" "dropWhile P (xs @ ys) = ys"
    by (simp_all add: list_all_iff takeWhile_append2 dropWhile_append2)
qed

lemma ExponentPart_exponent_part:
  assumes "exponent_part e k"
  shows "ExponentPart e = Some k"
proof -
  from assms consider "e = []" "k = 0"
    | c ds where "c \<in> set ''eE''" "ds \<noteq> []" "list_all DecimalDigit ds"
        "e = c # ds \<and> k = MV 10 ds \<or> e = c # CHR ''+'' # ds \<and> k = MV 10 ds
           \<or> e = c # CHR ''-'' # ds \<and> k = - MV 10 ds"
    unfolding exponent_part_def by blast
  then show ?thesis
  proof cases
    case 1
    then show ?thesis by (simp add: ExponentPart_def)
  next
    case 2
    from 2(2,3) obtain d ds' where ds: "ds = d # ds'" and d: "DecimalDigit d"
      by (cases ds) auto
    from d have nd: "d \<noteq> CHR ''+''" "d \<noteq> CHR ''-''" using digit_not_sign by blast+
    from 2(4) show ?thesis
    proof (elim disjE conjE)
      assume "e = c # ds" "k = MV 10 ds"
      with 2(1,2,3) ds nd show ?thesis
        by (simp add: ExponentPart_def DecimalDigits_def del: set_simps)
    next
      assume "e = c # CHR ''+'' # ds" "k = MV 10 ds"
      with 2(1,2,3) show ?thesis
        by (simp add: ExponentPart_def DecimalDigits_def del: set_simps)
    next
      assume "e = c # CHR ''-'' # ds" "k = - MV 10 ds"
      with 2(1,2,3) show ?thesis
        by (simp add: ExponentPart_def DecimalDigits_def del: set_simps)
    qed
  qed
qed

lemma exponent_part_head:
  assumes "exponent_part e k"
  shows "e = [] \<or> (\<not> DecimalDigit (hd e) \<and> hd e \<noteq> CHR ''.'')"
  using assms unfolding exponent_part_def by (auto simp: DecimalDigit_def)

lemma StrUnsignedDecimalLiteral_unsigned_decimal_literal:
  assumes "unsigned_decimal_literal u q"
  shows "StrUnsignedDecimalLiteral u = Some q"
proof -
  from assms obtain m e qm k ip fp where
    u: "u = m @ e" and ex: "exponent_part e k"
    and q: "q = qm * (if 0 \<le> k then 10 ^ nat k else 1 / 10 ^ nat (- k))"
    and ip: "list_all DecimalDigit ip" and fp: "list_all DecimalDigit fp"
    and m: "m = ip \<and> ip \<noteq> [] \<and> fp = [] \<or> m = ip @ CHR ''.'' # fp \<and> (ip \<noteq> [] \<or> fp \<noteq> [])"
    and qm: "qm = of_int (MV 10 ip) + of_int (MV 10 fp) / 10 ^ length fp"
    unfolding unsigned_decimal_literal_def decimal_mantissa_def by blast
  note E = ExponentPart_exponent_part [OF ex]
  note H = exponent_part_head [OF ex]
  from m show ?thesis
  proof (rule disjE)
    assume "m = ip \<and> ip \<noteq> [] \<and> fp = []"
    then have m': "m = ip" "ip \<noteq> []" "fp = []" by simp_all
    from H have h: "e = [] \<or> \<not> DecimalDigit (hd e)" by blast
    have t: "takeWhile DecimalDigit u = ip" "dropWhile DecimalDigit u = e"
      unfolding u m'(1) by (rule span_digits [OF ip h])+
    have mv0: "MV 10 [] = 0" by (simp add: MV_def)
    show ?thesis
    proof (cases e)
      case Nil
      with E have E': "ExponentPart [] = Some k" by simp
      show ?thesis
        unfolding StrUnsignedDecimalLiteral_def t Nil
        by (simp add: E' m' q qm mv0)
    next
      case (Cons c r)
      with H have c: "c \<noteq> CHR ''.''" by simp
      from E Cons have E': "ExponentPart (c # r) = Some k" by simp
      show ?thesis
        unfolding StrUnsignedDecimalLiteral_def t Cons
        by (simp add: E' c m' q qm mv0)
    qed
  next
    assume "m = ip @ CHR ''.'' # fp \<and> (ip \<noteq> [] \<or> fp \<noteq> [])"
    then have m': "m = ip @ CHR ''.'' # fp" "ip \<noteq> [] \<or> fp \<noteq> []" by simp_all
    have "u = ip @ (CHR ''.'' # fp @ e)" by (simp add: u m'(1))
    moreover have "CHR ''.'' # fp @ e = [] \<or> \<not> DecimalDigit (hd (CHR ''.'' # fp @ e))"
      by (simp add: not_digit_simps)
    ultimately have t: "takeWhile DecimalDigit u = ip" "dropWhile DecimalDigit u = CHR ''.'' # fp @ e"
      using span_digits [OF ip] by metis+
    from H have h: "e = [] \<or> \<not> DecimalDigit (hd e)" by blast
    note t2 = span_digits [OF fp h]
    show ?thesis
      unfolding StrUnsignedDecimalLiteral_def t
      using m'(2) by (simp add: t2 E q qm)
  qed
qed

lemma NonDecimalIntegerLiteral_non_decimal_integer_literal:
  assumes "non_decimal_integer_literal u n"
  shows "NonDecimalIntegerLiteral u = Some n"
  using assms unfolding non_decimal_integer_literal_def
  by (auto simp: NonDecimalIntegerLiteral_def)

lemma StrUnsignedDecimalLiteral_first:
  assumes "\<not> DecimalDigit c" "c \<noteq> CHR ''.''"
  shows "StrUnsignedDecimalLiteral (c # u) = None"
  using assms by (simp add: StrUnsignedDecimalLiteral_def)

lemma StrUnsignedDecimalLiteral_not_non_decimal:
  assumes "StrUnsignedDecimalLiteral u = Some q"
  shows "NonDecimalIntegerLiteral u = None"
proof (rule ccontr)
  assume "NonDecimalIntegerLiteral u \<noteq> None"
  then obtain p ds where u: "u = CHR ''0'' # p # ds" and p: "p \<in> set ''xXoObB''"
    by (auto simp: NonDecimalIntegerLiteral_def split: list.splits if_splits)
  from p have np: "\<not> DecimalDigit p" "p \<noteq> CHR ''.''" "p \<notin> set ''eE''"
    by (auto simp: DecimalDigit_def)
  have z: "DecimalDigit CHR ''0''" by (simp add: DecimalDigit_def)
  from np(3) have "ExponentPart (p # ds) = None" by (simp add: ExponentPart_def)
  with np(1,2) z have "StrUnsignedDecimalLiteral u = None"
    unfolding u by (simp add: StrUnsignedDecimalLiteral_def)
  with assms show False by simp
qed

lemma StrUnsignedDecimalLiteral_Infinity:
  "StrUnsignedDecimalLiteral ''Infinity'' = None"
  by (simp add: StrUnsignedDecimalLiteral_def DecimalDigit_def)

lemma StrNumericLiteral_unsigned:
  assumes "StrUnsignedDecimalLiteral u = Some q"
  shows "StrNumericLiteral u = RoundMVResult q"
    and "StrNumericLiteral (CHR ''+'' # u) = RoundMVResult q"
proof -
  from assms have inf: "u \<noteq> ''Infinity''"
    using StrUnsignedDecimalLiteral_Infinity by auto
  then have uv: "unsigned_value u = RoundMVResult q"
    using assms by (simp only: unsigned_value_def if_False option.case)
  from assms obtain c r where u: "u = c # r"
    by (cases u) (auto simp: StrUnsignedDecimalLiteral_def)
  from assms u have c: "c \<noteq> CHR ''-''" "c \<noteq> CHR ''+''"
    using StrUnsignedDecimalLiteral_first [of c r] by (auto simp: not_digit_simps)
  note nd = StrUnsignedDecimalLiteral_not_non_decimal [OF assms]
  have "StrNumericLiteral (c # r) = unsigned_value (c # r)"
    using nd c unfolding u by (simp add: StrNumericLiteral_def)
  with uv show "StrNumericLiteral u = RoundMVResult q" unfolding u by simp
  have "NonDecimalIntegerLiteral (CHR ''+'' # u) = None"
    by (simp add: NonDecimalIntegerLiteral_def split: list.splits)
  then have "StrNumericLiteral (CHR ''+'' # u) = unsigned_value u"
    by (simp add: StrNumericLiteral_def)
  with uv show "StrNumericLiteral (CHR ''+'' # u) = RoundMVResult q" by simp
qed

lemma StrNumericLiteral_non_decimal:
  assumes "NonDecimalIntegerLiteral u = Some n"
  shows "StrNumericLiteral u = RoundMVResult (of_int n)"
  using assms by (simp add: StrNumericLiteral_def)

lemma trim_padded:
  assumes "list_all StrWhiteSpaceChar ws" "list_all StrWhiteSpaceChar ws'"
    and "lit \<noteq> []" "\<not> StrWhiteSpaceChar (hd lit)" "\<not> StrWhiteSpaceChar (last lit)"
  shows "trim (ws @ lit @ ws') = lit"
proof -
  from assms(3,4) have "lit @ ws' = [] \<or> \<not> StrWhiteSpaceChar (hd (lit @ ws'))" by simp
  from span_digits(2) [OF assms(1) this]
  have 1: "dropWhile StrWhiteSpaceChar (ws @ lit @ ws') = lit @ ws'" .
  from assms(2) have r: "list_all StrWhiteSpaceChar (rev ws')" by (simp add: list_all_iff)
  from assms(3,5) have "rev lit = [] \<or> \<not> StrWhiteSpaceChar (hd (rev lit))"
    by (simp add: hd_rev)
  from span_digits(2) [OF r this]
  have 2: "dropWhile StrWhiteSpaceChar (rev ws' @ rev lit) = rev lit" .
  show ?thesis by (simp add: trim_def 1 2)
qed

lemma literal_chars:
  assumes "unsigned_decimal_literal u q"
  shows "u \<noteq> []" "\<forall>c\<in>set u. \<not> StrWhiteSpaceChar c"
proof -
  have d: "\<And>c. DecimalDigit c \<Longrightarrow> \<not> StrWhiteSpaceChar c"
    by (auto simp: DecimalDigit_def StrWhiteSpaceChar_def)
  have o: "\<not> StrWhiteSpaceChar CHR ''.''" "\<not> StrWhiteSpaceChar CHR ''+''"
    "\<not> StrWhiteSpaceChar CHR ''-''" "\<not> StrWhiteSpaceChar CHR ''e''" "\<not> StrWhiteSpaceChar CHR ''E''"
    by (simp_all add: StrWhiteSpaceChar_def)
  from assms obtain m e qm k where u: "u = m @ e" and m: "decimal_mantissa m qm"
    and e: "exponent_part e k"
    unfolding unsigned_decimal_literal_def by blast
  from m have m1: "m \<noteq> []" and m2: "\<forall>c\<in>set m. \<not> StrWhiteSpaceChar c"
    unfolding decimal_mantissa_def using d o by (auto simp: list_all_iff)
  from e have e2: "\<forall>c\<in>set e. \<not> StrWhiteSpaceChar c"
    unfolding exponent_part_def using d o by (auto simp: list_all_iff)
  from m1 u show "u \<noteq> []" by simp
  from m2 e2 u show "\<forall>c\<in>set u. \<not> StrWhiteSpaceChar c" by auto
qed

lemma non_decimal_chars:
  assumes "non_decimal_integer_literal u n"
  shows "u \<noteq> []" "\<forall>c\<in>set u. \<not> StrWhiteSpaceChar c"
proof -
  have h: "\<And>c. HexDigit c \<Longrightarrow> \<not> StrWhiteSpaceChar c"
    by (auto simp: HexDigit_def StrWhiteSpaceChar_def)
  have o: "\<And>c. c \<in> set ''01234567'' \<Longrightarrow> \<not> StrWhiteSpaceChar c"
    "\<And>c. c \<in> set ''01'' \<Longrightarrow> \<not> StrWhiteSpaceChar c"
    by (auto simp: StrWhiteSpaceChar_def)
  have z: "\<not> StrWhiteSpaceChar CHR ''0''" by (simp add: StrWhiteSpaceChar_def)
  from assms obtain p ds where u: "u = CHR ''0'' # p # ds"
    and r: "p \<in> set ''xX'' \<and> list_all HexDigit ds \<and> n = MV 16 ds
           \<or> p \<in> set ''oO'' \<and> list_all (\<lambda>c. c \<in> set ''01234567'') ds \<and> n = MV 8 ds
           \<or> p \<in> set ''bB'' \<and> list_all (\<lambda>c. c \<in> set ''01'') ds \<and> n = MV 2 ds"
    unfolding non_decimal_integer_literal_def by blast
  from r have "p \<in> set ''xX'' \<or> p \<in> set ''oO'' \<or> p \<in> set ''bB''" by blast
  then have p: "\<not> StrWhiteSpaceChar p" by (auto simp: StrWhiteSpaceChar_def)
  from r have "list_all HexDigit ds \<or> list_all (\<lambda>c. c \<in> set ''01234567'') ds
             \<or> list_all (\<lambda>c. c \<in> set ''01'') ds" by blast
  then have ds: "\<forall>c\<in>set ds. \<not> StrWhiteSpaceChar c"
    using h o unfolding list_all_iff by blast
  from u show "u \<noteq> []" by simp
  from u z p ds show "\<forall>c\<in>set u. \<not> StrWhiteSpaceChar c" by simp
qed

lemma trim_literal:
  assumes "list_all StrWhiteSpaceChar ws" "list_all StrWhiteSpaceChar ws'"
    and "lit \<noteq> []" "\<forall>c\<in>set lit. \<not> StrWhiteSpaceChar c"
  shows "trim (ws @ lit @ ws') = lit"
  using assms by (intro trim_padded) auto

lemma StringToNumber_numeric_string:
  assumes "numeric_string s q"
  shows "StringToNumber s = RoundMVResult q"
proof -
  from assms obtain ws lit ws' where s: "s = ws @ lit @ ws'"
    and ws: "list_all StrWhiteSpaceChar ws" "list_all StrWhiteSpaceChar ws'"
    and lit: "unsigned_decimal_literal lit q
              \<or> (\<exists>u. lit = CHR ''+'' # u \<and> unsigned_decimal_literal u q)
              \<or> (\<exists>n. non_decimal_integer_literal lit n \<and> q = of_int n)"
    unfolding numeric_string_def by blast
  have plus: "\<not> StrWhiteSpaceChar CHR ''+''" by (simp add: StrWhiteSpaceChar_def)
  from lit have "lit \<noteq> [] \<and> (\<forall>c\<in>set lit. \<not> StrWhiteSpaceChar c) \<and> StrNumericLiteral lit = RoundMVResult q"
  proof (elim disjE exE conjE)
    assume l: "unsigned_decimal_literal lit q"
    from literal_chars [OF l] StrNumericLiteral_unsigned(1) [OF StrUnsignedDecimalLiteral_unsigned_decimal_literal [OF l]]
    show ?thesis by simp
  next
    fix u assume u: "lit = CHR ''+'' # u" and l: "unsigned_decimal_literal u q"
    from literal_chars [OF l] StrNumericLiteral_unsigned(2) [OF StrUnsignedDecimalLiteral_unsigned_decimal_literal [OF l]] plus
    show ?thesis unfolding u by simp
  next
    fix n assume l: "non_decimal_integer_literal lit n" and q: "q = of_int n"
    from non_decimal_chars [OF l]
      StrNumericLiteral_non_decimal [OF NonDecimalIntegerLiteral_non_decimal_integer_literal [OF l]] q
    show ?thesis by simp
  qed
  then have l1: "lit \<noteq> []" and l2: "\<forall>c\<in>set lit. \<not> StrWhiteSpaceChar c"
    and l3: "StrNumericLiteral lit = RoundMVResult q" by simp_all
  from trim_literal [OF ws l1 l2] l1 l3 show ?thesis
    unfolding s by (simp add: StringToNumber_def)
qed

lemma decimal_mantissa_digits:
  "ip \<noteq> [] \<Longrightarrow> list_all DecimalDigit ip \<Longrightarrow> decimal_mantissa ip (of_int (MV 10 ip))"
  unfolding decimal_mantissa_def
  by (rule exI [of _ ip], rule exI [of _ "[]"]) (simp add: MV_def)

lemma decimal_mantissa_point:
  "list_all DecimalDigit ip \<Longrightarrow> list_all DecimalDigit fp \<Longrightarrow> ip \<noteq> [] \<or> fp \<noteq> [] \<Longrightarrow>
   decimal_mantissa (ip @ CHR ''.'' # fp) (of_int (MV 10 ip) + of_int (MV 10 fp) / 10 ^ length fp)"
  unfolding decimal_mantissa_def
  by (rule exI [of _ ip], rule exI [of _ fp]) simp

lemma exponent_part_none: "exponent_part [] 0"
  by (simp add: exponent_part_def)

lemma exponent_part_digits:
  "c \<in> set ''eE'' \<Longrightarrow> ds \<noteq> [] \<Longrightarrow> list_all DecimalDigit ds \<Longrightarrow> exponent_part (c # ds) (MV 10 ds)"
  unfolding exponent_part_def by blast

lemma exponent_part_plus:
  "c \<in> set ''eE'' \<Longrightarrow> ds \<noteq> [] \<Longrightarrow> list_all DecimalDigit ds \<Longrightarrow>
   exponent_part (c # CHR ''+'' # ds) (MV 10 ds)"
  unfolding exponent_part_def by blast

lemma exponent_part_minus:
  "c \<in> set ''eE'' \<Longrightarrow> ds \<noteq> [] \<Longrightarrow> list_all DecimalDigit ds \<Longrightarrow>
   exponent_part (c # CHR ''-'' # ds) (- MV 10 ds)"
  unfolding exponent_part_def by blast

lemma unsigned_decimal_literal_parts:
  "decimal_mantissa m qm \<Longrightarrow> exponent_part e k \<Longrightarrow>
   unsigned_decimal_literal (m @ e) (qm * (if 0 \<le> k then 10 ^ nat k else 1 / 10 ^ nat (- k)))"
  unfolding unsigned_decimal_literal_def by blast

lemma numeric_string_unsigned:
  "list_all StrWhiteSpaceChar ws \<Longrightarrow> list_all StrWhiteSpaceChar ws' \<Longrightarrow>
   unsigned_decimal_literal lit q \<Longrightarrow> numeric_string (ws @ lit @ ws') q"
  unfolding numeric_string_def by blast

lemma numeric_string_plus:
  "list_all StrWhiteSpaceChar ws \<Longrightarrow> list_all StrWhiteSpaceChar ws' \<Longrightarrow>
   unsigned_decimal_literal u q \<Longrightarrow> numeric_string (ws @ (CHR ''+'' # u) @ ws') q"
  unfolding numeric_string_def by blast

lemma numeric_string_non_decimal:
  "list_all StrWhiteSpaceChar ws \<Longrightarrow> list_all StrWhiteSpaceChar ws' \<Longrightarrow>
   non_decimal_integer_literal lit n \<Longrightarrow> numeric_string (ws @ lit @ ws') (of_int n)"
  unfolding numeric_string_def by blast

lemmas digit_eval = DecimalDigit_def HexDigit_def MV_def digit_value_def StrWhiteSpaceChar_def

lemma numeric_string_429: "numeric_string ''429'' 429"
  using numeric_string_unsigned [of "[]" "[]",
          OF _ _ unsigned_decimal_literal_parts [OF decimal_mantissa_digits [of "''429''"] exponent_part_none]]
  by (simp add: digit_eval)

lemma numeric_string_502_padded:
  "numeric_string [CHR 0x09, CHR '' '', CHR ''5'', CHR ''0'', CHR ''2'', CHR '' '', CHR 0x0A] 502"
  using numeric_string_unsigned [of "[CHR 0x09, CHR '' '']" "[CHR '' '', CHR 0x0A]",
          OF _ _ unsigned_decimal_literal_parts [OF decimal_mantissa_digits [of "''502''"] exponent_part_none]]
  by (simp add: digit_eval)

lemma numeric_string_429_exponent: "numeric_string ''+0.00429e5'' 429"
  using numeric_string_plus [of "[]" "[]",
          OF _ _ unsigned_decimal_literal_parts [OF decimal_mantissa_point [of "''0''" "''00429''"]
            exponent_part_digits [of "CHR ''e''" "''5''"]]]
  by (simp add: digit_eval)

lemma numeric_string_502_exponent: "numeric_string ''5020000000000000000E-16'' 502"
  using numeric_string_unsigned [of "[]" "[]",
          OF _ _ unsigned_decimal_literal_parts [OF decimal_mantissa_digits [of "''5020000000000000000''"]
            exponent_part_minus [of "CHR ''E''" "''16''"]]]
  by (simp add: digit_eval)

lemma numeric_string_429_hex: "numeric_string ''0x1aD'' 429"
proof -
  have "non_decimal_integer_literal ''0x1aD'' 429"
    unfolding non_decimal_integer_literal_def
    by (rule exI [of _ "CHR ''x''"], rule exI [of _ "''1aD''"]) (simp add: digit_eval)
  from numeric_string_non_decimal [of "[]" "[]", OF _ _ this] show ?thesis by simp
qed

section \<open>The classifier on a network error\<close>

lemma Number_uninitialized_code:
  "Number (JStr ''StarknetErrorCode.UNINITIALIZED_CONTRACT'') = NaN"
  by code_simp

lemma Number_429x:
  "Number (JStr ''429x'') = NaN"
  by code_simp

lemma Number_numeric_string:
  "numeric_string s 429 \<Longrightarrow> Number (JStr s) = Fin 429"
  "numeric_string s 502 \<Longrightarrow> Number (JStr s) = Fin 502"
  using StringToNumber_numeric_string [of s 429] StringToNumber_numeric_string [of s 502]
  by (simp_all add: RoundMVResult_429 RoundMVResult_502)

text \<open>
  C3: when \<^verbatim>\<open>isNumeric\<close> accepts the error code and the code is the number
  429 or 502, or a numeric string that denotes 429 or 502, the classifier returns
  \<^verbatim>\<open>Network error\<close> with the raw message as description; such a code is
  never the one of the undeployed-contract branch. When \<^verbatim>\<open>isNumeric\<close>
  rejects the code, or \<^verbatim>\<open>Number\<close> turns it into anything but 429 and 502,
  and in particular for \<^verbatim>\<open>null\<close>, \<^verbatim>\<open>undefined\<close>, the number 500 and the
  string \<^verbatim>\<open>429x\<close>, whatever the classifier returns is not
  \<^verbatim>\<open>Network error\<close>.
\<close>

theorem errorToMessage_network_error:
  "(isNumeric env (get error ''errorCode'')
      \<and> (get error ''errorCode'' \<in> {JNum (Fin 429), JNum (Fin 502)}
         \<or> (\<exists>s. get error ''errorCode'' = JStr s
                \<and> (numeric_string s 429 \<or> numeric_string s 502)))
      \<longrightarrow> errorToMessage env error tokenAddress multicallAddress
            = (Inr \<lparr>message = ''Network error'', description = get error ''message''\<rparr>, []))
   \<and> ((\<not> isNumeric env (get error ''errorCode'')
        \<or> Number (get error ''errorCode'') \<notin> {Fin 429, Fin 502}
        \<or> get error ''errorCode'' \<in> {JNull, JUndefined, JNum (Fin 500), JStr ''429x''})
      \<longrightarrow> (\<forall>r out. errorToMessage env error tokenAddress multicallAddress = (Inr r, out)
             \<longrightarrow> message r \<noteq> ''Network error''))"
proof (intro conjI impI allI)
  assume h: "isNumeric env (get error ''errorCode'')
      \<and> (get error ''errorCode'' \<in> {JNum (Fin 429), JNum (Fin 502)}
         \<or> (\<exists>s. get error ''errorCode'' = JStr s
                \<and> (numeric_string s 429 \<or> numeric_string s 502)))"
  then have n: "Number (get error ''errorCode'') \<in> {Fin 429, Fin 502}"
    using Number_numeric_string by auto
  then have "get error ''errorCode'' \<noteq> JStr ''StarknetErrorCode.UNINITIALIZED_CONTRACT''"
    using Number_uninitialized_code by auto
  with h n show "errorToMessage env error tokenAddress multicallAddress
            = (Inr \<lparr>message = ''Network error'', description = get error ''message''\<rparr>, [])"
    by (simp add: errorToMessage_def isNetworkError_def Let_def)
next
  fix r out
  assume h: "\<not> isNumeric env (get error ''errorCode'')
        \<or> Number (get error ''errorCode'') \<notin> {Fin 429, Fin 502}
        \<or> get error ''errorCode'' \<in> {JNull, JUndefined, JNum (Fin 500), JStr ''429x''}"
    and res: "errorToMessage env error tokenAddress multicallAddress = (Inr r, out)"
  from h have no: "\<not> isNetworkError env (get error ''errorCode'')"
    using Number_429x by (auto simp: isNetworkError_def Let_def)
  show "message r \<noteq> ''Network error''"
  proof (cases "get error ''errorCode'' = JStr ''StarknetErrorCode.UNINITIALIZED_CONTRACT''")
    case True
    show ?thesis
    proof (cases "get error ''message''")
      case (JStr msg)
      from res show ?thesis
        unfolding errorToMessage_uninitialized [OF True JStr]
        by (auto split: option.splits if_splits)
    qed (use res True in \<open>simp_all add: errorToMessage_def\<close>)
  next
    case False
    with no res show ?thesis by (auto simp: errorToMessage_def Let_def)
  qed
qed

lemma numeric_string_429_e7: "numeric_string ''4290000000e-7'' 429"
  using numeric_string_unsigned [of "[]" "[]",
          OF _ _ unsigned_decimal_literal_parts [OF decimal_mantissa_digits [of "''4290000000''"]
            exponent_part_minus [of "CHR ''e''" "''7''"]]]
  by (simp add: digit_eval)

lemma numeric_string_502_e8: "numeric_string ''50200000000E-8'' 502"
  using numeric_string_unsigned [of "[]" "[]",
          OF _ _ unsigned_decimal_literal_parts [OF decimal_mantissa_digits [of "''50200000000''"]
            exponent_part_minus [of "CHR ''E''" "''8''"]]]
  by (simp add: digit_eval)

lemma numeric_string_429_e13: "numeric_string ''4290000000000000e-13'' 429"
  using numeric_string_unsigned [of "[]" "[]",
          OF _ _ unsigned_decimal_literal_parts [OF decimal_mantissa_digits [of "''4290000000000000''"]
            exponent_part_minus [of "CHR ''e''" "''13''"]]]
  by (simp add: digit_eval)

text \<open>
  C3 at the numbers 429 and 502, at numeric strings that denote them (plain,
  between white space, with a sign, a point and an exponent, in hexadecimal), and
  at the codes \<^verbatim>\<open>"429x"\<close>, \<^verbatim>\<open>null\<close>, 500 and \<^verbatim>\<open>undefined\<close>. The
  \<^verbatim>\<open>isNumeric\<close> of this instance accepts what \<^verbatim>\<open>Number\<close> turns into a
  finite number, \<^verbatim>\<open>null\<close> included.
\<close>

theorem errorToMessage_network_error_witness:
  "(let env = \<lparr>IS_DEV = False,
               isNumeric = (\<lambda>v. case Number v of Fin _ \<Rightarrow> True | _ \<Rightarrow> False),
               isEqualAddress = (\<lambda>a b. a = b)\<rparr>;
        classify = (\<lambda>code. errorToMessage env
                      (code @ [(''message'', JStr ''Too many requests'')]) ''0x06'' None);
        networkError = (Inr \<lparr>message = ''Network error'',
                              description = JStr ''Too many requests''\<rparr>, [])
    in classify [(''errorCode'', JNum (Fin 429))] = networkError
       \<and> classify [(''errorCode'', JNum (Fin 502))] = networkError
       \<and> classify [(''errorCode'', JStr ''429'')] = networkError
       \<and> classify [(''errorCode'',
             JStr [CHR 0x09, CHR '' '', CHR ''5'', CHR ''0'', CHR ''2'', CHR '' '', CHR 0x0A])]
           = networkError
       \<and> classify [(''errorCode'', JStr ''+0.00429e5'')] = networkError
       \<and> classify [(''errorCode'', JStr ''5020000000000000000E-16'')] = networkError
       \<and> classify [(''errorCode'', JStr ''4290000000e-7'')] = networkError
       \<and> classify [(''errorCode'', JStr ''50200000000E-8'')] = networkError
       \<and> classify [(''errorCode'', JStr ''4290000000000000e-13'')] = networkError
       \<and> classify [(''errorCode'', JStr ''0x1aD'')] = networkError
       \<and> classify [(''errorCode'', JStr ''429x'')] \<noteq> networkError
       \<and> classify [(''errorCode'', JNull)] \<noteq> networkError
       \<and> classify [(''errorCode'', JNum (Fin 500))] \<noteq> networkError
       \<and> classify [] \<noteq> networkError)"
proof -
  define env where "env = \<lparr>IS_DEV = False,
               isNumeric = (\<lambda>v. case Number v of Fin _ \<Rightarrow> True | _ \<Rightarrow> False),
               isEqualAddress = (\<lambda>a b. a = b)\<rparr>"
  define classify where "classify = (\<lambda>code. errorToMessage env
                      (code @ [(''message'', JStr ''Too many requests'')]) ''0x06'' None)"
  define networkError :: "(exn + TokenBalanceErrorMessage) \<times> console_warn list"
    where "networkError = (Inr \<lparr>message = ''Network error'',
                              description = JStr ''Too many requests''\<rparr>, [])"
  have numeric: "isNumeric env v \<longleftrightarrow> (case Number v of Fin _ \<Rightarrow> True | _ \<Rightarrow> False)" for v
    by (simp add: env_def)
  have number: "classify [(''errorCode'', JNum (Fin n))] = networkError" if "n = 429 \<or> n = 502" for n
    using errorToMessage_network_error
            [of env "[(''errorCode'', JNum (Fin n)), (''message'', JStr ''Too many requests'')]"
                "''0x06''" None] that
    by (auto simp: get_def numeric classify_def networkError_def)
  have string: "classify [(''errorCode'', JStr s)] = networkError"
    if "numeric_string s 429 \<or> numeric_string s 502" for s
  proof -
    from that have "Number (JStr s) = Fin 429 \<or> Number (JStr s) = Fin 502"
      using Number_numeric_string by blast
    then have "isNumeric env (JStr s)" by (auto simp: numeric)
    with that show ?thesis
      using errorToMessage_network_error
              [of env "[(''errorCode'', JStr s), (''message'', JStr ''Too many requests'')]"
                  "''0x06''" None]
      by (simp add: get_def classify_def networkError_def)
  qed
  have other: "classify code \<noteq> networkError"
    if "get (code @ [(''message'', JStr ''Too many requests'')]) ''errorCode''
          \<in> {JNull, JUndefined, JNum (Fin 500), JStr ''429x''}" for code
    using errorToMessage_network_error
            [of env "code @ [(''message'', JStr ''Too many requests'')]" "''0x06''" None] that
    by (auto simp: classify_def networkError_def)
  have "classify [(''errorCode'', JNum (Fin 429))] = networkError"
    "classify [(''errorCode'', JNum (Fin 502))] = networkError"
    by (rule number; simp)+
  moreover have "classify [(''errorCode'', JStr ''429'')] = networkError"
    "classify [(''errorCode'',
             JStr [CHR 0x09, CHR '' '', CHR ''5'', CHR ''0'', CHR ''2'', CHR '' '', CHR 0x0A])]
           = networkError"
    "classify [(''errorCode'', JStr ''+0.00429e5'')] = networkError"
    "classify [(''errorCode'', JStr ''5020000000000000000E-16'')] = networkError"
    "classify [(''errorCode'', JStr ''4290000000e-7'')] = networkError"
    "classify [(''errorCode'', JStr ''50200000000E-8'')] = networkError"
    "classify [(''errorCode'', JStr ''4290000000000000e-13'')] = networkError"
    "classify [(''errorCode'', JStr ''0x1aD'')] = networkError"
    using numeric_string_429 numeric_string_502_padded numeric_string_429_exponent
      numeric_string_502_exponent numeric_string_429_e7 numeric_string_502_e8
      numeric_string_429_e13 numeric_string_429_hex
    by (blast intro: string)+
  moreover have "classify [(''errorCode'', JStr ''429x'')] \<noteq> networkError"
    "classify [(''errorCode'', JNull)] \<noteq> networkError"
    "classify [(''errorCode'', JNum (Fin 500))] \<noteq> networkError"
    "classify [] \<noteq> networkError"
    by (rule other; simp add: get_def)+
  ultimately show ?thesis
    unfolding Let_def classify_def networkError_def env_def
    by blast
qed

section \<open>Where the classifier throws\<close>

lemma errorToMessage_throws_iff:
  "(\<exists>e out. errorToMessage env error tokenAddress multicallAddress = (Inl e, out))
     \<longleftrightarrow> get error ''errorCode'' = JStr ''StarknetErrorCode.UNINITIALIZED_CONTRACT''
          \<and> (\<forall>msg. get error ''message'' \<noteq> JStr msg)"
proof (cases "get error ''errorCode'' = JStr ''StarknetErrorCode.UNINITIALIZED_CONTRACT''")
  case True
  show ?thesis
  proof (cases "get error ''message''")
    case (JStr msg)
    show ?thesis
      unfolding errorToMessage_uninitialized [OF True JStr] using JStr by simp
  qed (use True in \<open>simp_all add: errorToMessage_def\<close>)
next
  case False
  then show ?thesis by (simp add: errorToMessage_def Let_def)
qed

text \<open>
  C7 fails on the code: for an error with the code
  \<^verbatim>\<open>StarknetErrorCode.UNINITIALIZED_CONTRACT\<close> and no message, or a message
  that is not a string, \<^verbatim>\<open>message.match\<close> throws a \<^verbatim>\<open>TypeError\<close> and the
  classifier returns nothing.
\<close>

theorem errorToMessage_throws_TypeError:
  "errorToMessage env [(''errorCode'', JStr ''StarknetErrorCode.UNINITIALIZED_CONTRACT'')]
     tokenAddress multicallAddress = (Inl TypeError, [])
   \<and> errorToMessage env [(''errorCode'', JStr ''StarknetErrorCode.UNINITIALIZED_CONTRACT''),
        (''message'', JNum (Fin 404))] tokenAddress multicallAddress = (Inl TypeError, [])"
  by (simp add: errorToMessage_def get_def)

section \<open>The labels and the console\<close>

lemma errorToMessage_generic:
  assumes "get error ''errorCode'' \<noteq> JStr ''StarknetErrorCode.UNINITIALIZED_CONTRACT''"
    and "\<not> isNetworkError env (get error ''errorCode'')"
  shows "errorToMessage env error tokenAddress multicallAddress
           = (Inr \<lparr>message = ''Error'', description = get error ''message''\<rparr>,
              if IS_DEV env then [Warn (get error ''errorCode'') error] else [])"
  using assms by (simp add: errorToMessage_def Let_def)

lemma errorToMessage_returns_label:
  assumes "errorToMessage env error tokenAddress multicallAddress = (Inr r, out)"
  shows "message r \<in> {''Token not found'', ''No Multicall'', ''Missing contract'', ''Network error'', ''Error''}
         \<and> (out \<noteq> [] \<longrightarrow> IS_DEV env \<and> message r = ''Error'')"
proof (cases "get error ''errorCode'' = JStr ''StarknetErrorCode.UNINITIALIZED_CONTRACT''")
  case True
  show ?thesis
  proof (cases "get error ''message''")
    case (JStr msg)
    from assms show ?thesis
      unfolding errorToMessage_uninitialized [OF True JStr]
      by (auto split: option.splits if_splits)
  qed (use assms True in \<open>simp_all add: errorToMessage_def\<close>)
next
  case False
  with assms show ?thesis by (auto simp: errorToMessage_def Let_def split: if_splits)
qed

lemma errorToMessage_warns_in_dev_only:
  assumes "errorToMessage env error tokenAddress multicallAddress = (res, out)" "out \<noteq> []"
  shows "IS_DEV env"
  using assms by (auto simp: errorToMessage_def Let_def split: if_splits jsval.splits option.splits)

text \<open>
  C10 fails on the code in its first half: for an error with the code
  \<^verbatim>\<open>StarknetErrorCode.UNINITIALIZED_CONTRACT\<close> and no message the
  classifier returns no label at all, because \<^verbatim>\<open>message.match\<close> throws.
\<close>

theorem errorToMessage_returns_no_label:
  "{message r |r out.
      errorToMessage env [(''errorCode'', JStr ''StarknetErrorCode.UNINITIALIZED_CONTRACT'')]
        tokenAddress multicallAddress = (Inr r, out)} = {}"
  by (simp add: errorToMessage_def get_def)

section \<open>The fetcher on a failed query\<close>

lemma fetcher_rethrows:
  "fetcher env (Inl error) False tokenAddress multicallAddress = (Inl (Thrown error), [])"
  by (simp add: fetcher_def)

lemma fetcher_returns_error:
  assumes "get error ''errorCode'' \<noteq> JStr ''StarknetErrorCode.UNINITIALIZED_CONTRACT''
           \<or> (\<exists>msg. get error ''message'' = JStr msg)"
  shows "\<exists>m out. fetcher env (Inl error) True tokenAddress multicallAddress = (Inr (ErrorMessage m), out)"
proof -
  obtain res out where r: "errorToMessage env error tokenAddress multicallAddress = (res, out)"
    by (cases "errorToMessage env error tokenAddress multicallAddress")
  with assms errorToMessage_throws_iff [of env error tokenAddress multicallAddress]
  obtain m where "res = Inr m" by (cases res) auto
  with r show ?thesis by (simp add: fetcher_def)
qed

text \<open>
  C4 fails on the code in its first half: with \<^verbatim>\<open>shouldReturnError\<close> set, a
  query that fails with the code \<^verbatim>\<open>StarknetErrorCode.UNINITIALIZED_CONTRACT\<close>
  and no message makes the classifier throw inside the \<^verbatim>\<open>catch\<close> block, and
  the fetcher rejects with that \<^verbatim>\<open>TypeError\<close>.
\<close>

theorem fetcher_rejects_with_TypeError:
  "fetcher env (Inl [(''errorCode'', JStr ''StarknetErrorCode.UNINITIALIZED_CONTRACT'')])
     True tokenAddress multicallAddress = (Inl TypeError, [])"
  by (simp add: fetcher_def errorToMessage_def get_def)

end
